theory Spec2Isabelle
  imports Main "HOL-Library.Word"
begin

unbundle bit_operations_syntax

section \<open>jsonslice: results, errors and bytes\<close>

text \<open>
  The Go package \<^verbatim>\<open>jsonslice\<close> (file \<^verbatim>\<open>jsonslice.go\<close>) works on \<^verbatim>\<open>[]byte\<close> buffers and
  on a path string. A byte is a \<^typ>\<open>char\<close>, a buffer a \<^typ>\<open>string\<close>. Positions and lengths
  (\<^verbatim>\<open>i\<close>, \<^verbatim>\<open>l\<close>, \<^verbatim>\<open>len(input)\<close>) never exceed the length of a buffer and are natural
  numbers; the values of Go's \<^verbatim>\<open>int\<close> that come out of the digits of a path
  (\<^verbatim>\<open>ind\<close>, \<^verbatim>\<open>Left\<close>, \<^verbatim>\<open>Right\<close>) are 64-bit words, \<^verbatim>\<open>Type int8\<close> is an 8-bit word.

  Every \<^verbatim>\<open>errors.New\<close> of the source is one constructor of \<open>error\<close>, carrying the
  values that the message is built from. An index expression out of range, a slice
  expression with inverted bounds and a nil dereference end a Go program with a run-time
  panic: that outcome is \<open>Panic\<close>, distinct from every returned error.
\<close>

datatype error =
    DollarExpected                 \<comment> \<open>path: $ expected\<close>
  | PathEmpty                      \<comment> \<open>path: empty\<close>
  | UnknownFunction string         \<comment> \<open>path: unknown function KEY()\<close>
  | IndexBoundMissing              \<comment> \<open>path: index bound missing\<close>
  | ZeroSecondBound                \<comment> \<open>path: 0 as a second bound does not make sense\<close>
  | IndefiniteReference            \<comment> \<open>path: indefinite references are not yet supported\<close>
  | DotExpected                    \<comment> \<open>path: invalid element reference ('.' expected)\<close>
  | UnexpectedEnd                  \<comment> \<open>unexpected end of input\<close>
  | ContainerExpected              \<comment> \<open>object or array expected\<close>
  | ObjectExpected                 \<comment> \<open>object expected\<close>
  | FieldNotFound string           \<comment> \<open>field KEY not found\<close>
  | ArrayNotFound string           \<comment> \<open>array not found at KEY\<close>
  | IndexNotExist string "64 word" \<comment> \<open>KEY[LEFT] does not exist\<close>
  | RangeNotExist string "64 word" "64 word" \<comment> \<open>KEY[LEFT:RIGHT] does not exist\<close>
  | ColonExpected                  \<comment> \<open>":" expected\<close>
  | ObjectExpectedAt string        \<comment> \<open>object expected at KEY\<close>
  | ArrayExpectedAt string         \<comment> \<open>array expected at KEY\<close>
  | ComplexExpectedAt string       \<comment> \<open>complex type expected at KEY\<close>
  | LengthNotApplicable            \<comment> \<open>length() is only applicable to array or string\<close>

datatype 'a result = Ok 'a | Err error | Panic

abbreviation dquote :: char where "dquote \<equiv> CHR 0x22"
abbreviation bslash :: char where "bslash \<equiv> CHR 0x5C"

section \<open>The token chain\<close>

definition cArrayType :: "8 word" where "cArrayType = 1"
definition cArrBounded :: "8 word" where "cArrBounded = 2"
definition cIsTerminal :: "8 word" where "cIsTerminal = 4"
definition cFunction :: "8 word" where "cFunction = 8"
definition cSubject :: "8 word" where "cSubject = 16"

text \<open>\<^verbatim>\<open>type tToken struct\<close>; the pointer \<^verbatim>\<open>Next *tToken\<close> is an option, nil being \<open>None\<close>.\<close>

datatype tToken =
  Token (Key: string) (Type: "8 word") (Left: "64 word") (Right: "64 word") (Next: "tToken option")

section \<open>The path compiler\<close>

text \<open>
  The loops of the source that read a byte in their init and post statements,
  \<^verbatim>\<open>for ch := path[i]; i < l && c(ch); ch = path[i] { ...; i++ }\<close>,
  evaluate \<^verbatim>\<open>path[i]\<close> before every test of the condition. So each time the condition is
  tested the read has either succeeded, and then \<^verbatim>\<open>i < l\<close> holds, or it has panicked.
  The loop functions below start at that read: \<open>i < length path\<close> fails into \<open>Panic\<close>.
\<close>

text \<open>\<^verbatim>\<open>readNumber\<close>, the loop on the state \<^verbatim>\<open>(i, sign, ind)\<close>.\<close>

function readNumber_loop :: "string \<Rightarrow> nat \<Rightarrow> 64 word \<Rightarrow> 64 word \<Rightarrow> (64 word \<times> 64 word \<times> nat) result" where
  "readNumber_loop path i sign ind =
     (if i < length path then
        (if path ! i = CHR ''-''
            \<or> (of_char (CHR ''0'') \<le> (of_char (path ! i) :: nat)
                \<and> (of_char (path ! i) :: nat) \<le> of_char (CHR ''9''))
         then
           (if path ! i = CHR ''-''
            then readNumber_loop path (i + 1) (- 1) ind
            else readNumber_loop path (i + 1) sign
                   (ind * 10 + word_of_nat (of_char (path ! i) - of_char (CHR ''0''))))
         else Ok (sign, ind, i))
      else Panic)"
  by pat_completeness auto
termination
  by (relation "measure (\<lambda>(path, i, sign, ind). length path - i)") auto

declare readNumber_loop.simps [simp del]

definition readNumber :: "string \<Rightarrow> nat \<Rightarrow> (64 word \<times> nat) result" where
  "readNumber path i =
     (case readNumber_loop path i 1 0 of
        Ok (sign, ind, i') \<Rightarrow> Ok (ind * sign, i')
      | Err e \<Rightarrow> Err e
      | Panic \<Rightarrow> Panic)"

text \<open>The key scan of \<^verbatim>\<open>parsePath\<close>: \<^verbatim>\<open>for ; i < l && path[i] != '.' && path[i] != '[' && path[i] != '('; i++ {}\<close>.\<close>

function keyScan :: "string \<Rightarrow> nat \<Rightarrow> nat" where
  "keyScan path i =
     (if i < length path \<and> path ! i \<noteq> CHR ''.'' \<and> path ! i \<noteq> CHR ''['' \<and> path ! i \<noteq> CHR ''(''
      then keyScan path (i + 1) else i)"
  by pat_completeness auto
termination
  by (relation "measure (\<lambda>(path, i). length path - i)") auto

declare keyScan.simps [simp del]

text \<open>
  \<^verbatim>\<open>parsePath\<close> runs three blocks in sequence on the mutable state \<^verbatim>\<open>(tok, i)\<close>, each of
  which may return. A block yields \<open>Inl tok\<close> when it returns the token and
  \<open>Inr\<close> of the state when control falls through to the next block.

  The function block, lines 70 to 83. \<^verbatim>\<open>path[i+1]\<close> is read when \<^verbatim>\<open>path[i] == '('\<close>, also
  when \<^verbatim>\<open>(\<close> is the last byte.
\<close>

definition parseFunction :: "string \<Rightarrow> string \<Rightarrow> nat \<Rightarrow> (tToken + 8 word \<times> nat) result" where
  "parseFunction path key i =
     (if i < length path then
        (if path ! i = CHR ''('' then
           (if i + 1 < length path then
              (if path ! (i + 1) = CHR '')'' then
                 (if key = ''length'' \<or> key = ''size'' then
                    (if i + 2 = length path
                     then Ok (Inl (Token key (cFunction OR cIsTerminal) 0 0 None))
                     else Ok (Inr (cFunction, i + 2)))
                  else Err (UnknownFunction key))
               else Ok (Inr (0, i)))
            else Panic)
         else Ok (Inr (0, i)))
      else Panic)"

text \<open>The array block, lines 84 to 112. \<^verbatim>\<open>tok.Type = cArrayType\<close> overwrites the flags.\<close>

definition parseIndex ::
  "string \<Rightarrow> string \<Rightarrow> 8 word \<Rightarrow> nat \<Rightarrow> (tToken + 8 word \<times> 64 word \<times> 64 word \<times> nat) result" where
  "parseIndex path key ty i =
     (if i < length path then
        (if path ! i = CHR ''['' then
           (case readNumber path (i + 1) of
              Panic \<Rightarrow> Panic
            | Err e \<Rightarrow> Err e
            | Ok (ind, i1) \<Rightarrow>
                if i1 = length path \<or> (path ! i1 \<noteq> CHR '':'' \<and> path ! i1 \<noteq> CHR '']'')
                then Err IndexBoundMissing
                else if path ! i1 = CHR '':'' then
                  (case readNumber path (i1 + 1) of
                     Panic \<Rightarrow> Panic
                   | Err e \<Rightarrow> Err e
                   | Ok (ind2, ii) \<Rightarrow>
                       if ind2 = 0 \<and> ii > i1 + 1 then Err ZeroSecondBound
                       else if ii = length path \<or> path ! ii \<noteq> CHR '']'' then Err IndexBoundMissing
                       else if ii + 1 = length path
                       then Ok (Inl (Token key (cArrayType OR cArrBounded OR cIsTerminal) ind ind2 None))
                       else Ok (Inr (cArrayType OR cArrBounded, ind, ind2, ii + 1)))
                else if i1 + 1 = length path
                then Ok (Inl (Token key (cArrayType OR cIsTerminal) ind 0 None))
                else Ok (Inr (cArrayType, ind, 0, i1 + 1)))
         else Ok (Inr (ty, 0, 0, i)))
      else Panic)"

text \<open>
  The position a block hands on is never 0 and never beyond the path, which is what the
  recursion of \<^verbatim>\<open>parsePath\<close> on \<^verbatim>\<open>path[i:]\<close> needs.
\<close>

function parsePath :: "string \<Rightarrow> tToken result" where
  "parsePath path =
     (if length path = 0 then Err PathEmpty
      else if keyScan path 0 = length path
      then Ok (Token (take (keyScan path 0) path) cIsTerminal 0 0 None)
      else
        (case parseFunction path (take (keyScan path 0) path) (keyScan path 0) of
           Panic \<Rightarrow> Panic
         | Err e \<Rightarrow> Err e
         | Ok (Inl tok) \<Rightarrow> Ok tok
         | Ok (Inr (ty0, i0)) \<Rightarrow>
             (case parseIndex path (take (keyScan path 0) path) ty0 i0 of
                Panic \<Rightarrow> Panic
              | Err e \<Rightarrow> Err e
              | Ok (Inl tok) \<Rightarrow> Ok tok
              | Ok (Inr (ty, left, right, i)) \<Rightarrow>
                  if 0 <s (ty AND cArrBounded) \<and> ty AND cIsTerminal = 0
                  then Err IndefiniteReference
                  else if i < length path then
                    (if path ! i \<noteq> CHR ''.'' then Err DotExpected
                     else
                       (case parsePath (drop (i + 1) path) of
                          Panic \<Rightarrow> Panic
                        | Err e \<Rightarrow> Err e
                        | Ok next \<Rightarrow>
                            Ok (Token (take (keyScan path 0) path)
                                  (if 0 <s (Type next AND cFunction) then ty OR cSubject else ty)
                                  left right (Some next))))
                  else Panic)))"
  by pat_completeness auto
termination
  apply (relation "measure length")
   apply (rule wf_measure)
  apply (simp only: in_measure length_drop)
  done

declare parsePath.simps [simp del]

section \<open>The lexical scanner\<close>

text \<open>\<^verbatim>\<open>skipSpaces\<close>. The test \<^verbatim>\<open>i == l\<close> after the loop is kept as the source has it.\<close>

function skipSpaces_loop :: "string \<Rightarrow> nat \<Rightarrow> nat result" where
  "skipSpaces_loop input i =
     (if i < length input then
        (if input ! i = CHR '','' \<or> input ! i = CHR '' '' \<or> input ! i = CHR 0x09
            \<or> input ! i = CHR 0x0D \<or> input ! i = CHR 0x0A
         then skipSpaces_loop input (i + 1)
         else Ok i)
      else Panic)"
  by pat_completeness auto
termination
  by (relation "measure (\<lambda>(input, i). length input - i)") auto

declare skipSpaces_loop.simps [simp del]

definition skipSpaces :: "string \<Rightarrow> nat \<Rightarrow> nat result" where
  "skipSpaces input i =
     (case skipSpaces_loop input i of
        Ok i' \<Rightarrow> if i' = length input then Err UnexpectedEnd else Ok i'
      | Err e \<Rightarrow> Err e
      | Panic \<Rightarrow> Panic)"

text \<open>\<^verbatim>\<open>skipString\<close>, the loop on the state \<^verbatim>\<open>(i, prev, done)\<close>.\<close>

function skipString_loop :: "string \<Rightarrow> nat \<Rightarrow> char \<Rightarrow> bool \<Rightarrow> nat result" where
  "skipString_loop input i prev done =
     (if i < length input then
        (if \<not> done
         then skipString_loop input (i + 1) (input ! i)
                (if input ! i = dquote \<and> prev \<noteq> bslash then True else done)
         else Ok i)
      else Panic)"
  by pat_completeness auto
termination
  by (relation "measure (\<lambda>(input, i, prev, done). length input - i)") auto

declare skipString_loop.simps [simp del]

definition skipString :: "string \<Rightarrow> nat \<Rightarrow> nat result" where
  "skipString input i =
     (case skipString_loop input (i + 1) dquote False of
        Ok i' \<Rightarrow> if i' = length input then Err UnexpectedEnd else Ok i'
      | Err e \<Rightarrow> Err e
      | Panic \<Rightarrow> Panic)"

text \<open>
  \<^verbatim>\<open>skipValue\<close>: the bracket-depth loop on the state \<^verbatim>\<open>(i, nested, instr, prev)\<close> and the
  loop over a number, boolean or null, whose delimiters are space, tab, LF, CR, comma and
  \<^verbatim>\<open>}\<close>.
\<close>

function skipContainer_loop ::
  "string \<Rightarrow> char \<Rightarrow> char \<Rightarrow> nat \<Rightarrow> int \<Rightarrow> bool \<Rightarrow> char \<Rightarrow> nat result" where
  "skipContainer_loop input mark unmark i nested instr prev =
     (if i < length input then
        (if \<not> (input ! i = unmark \<and> nested = 0)
         then skipContainer_loop input mark unmark (i + 1)
                (if input ! i = dquote then nested
                 else if \<not> instr then
                   (if input ! i = mark then nested + 1
                    else if input ! i = unmark then nested - 1 else nested)
                 else nested)
                (if input ! i = dquote then (if prev \<noteq> bslash then \<not> instr else instr)
                 else instr)
                (input ! i)
         else Ok i)
      else Panic)"
  by pat_completeness auto
termination
  by (relation "measure (\<lambda>(input, mark, unmark, i, nested, instr, prev). length input - i)") auto

declare skipContainer_loop.simps [simp del]

function skipScalar_loop :: "string \<Rightarrow> nat \<Rightarrow> nat result" where
  "skipScalar_loop input i =
     (if i < length input then
        (if input ! i \<noteq> CHR '' '' \<and> input ! i \<noteq> CHR 0x09 \<and> input ! i \<noteq> CHR 0x0A
            \<and> input ! i \<noteq> CHR 0x0D \<and> input ! i \<noteq> CHR '','' \<and> input ! i \<noteq> CHR ''}''
         then skipScalar_loop input (i + 1)
         else Ok i)
      else Panic)"
  by pat_completeness auto
termination
  by (relation "measure (\<lambda>(input, i). length input - i)") auto

declare skipScalar_loop.simps [simp del]

definition skipValue :: "string \<Rightarrow> nat \<Rightarrow> nat result" where
  "skipValue input i0 =
     (case skipSpaces input i0 of
        Panic \<Rightarrow> Panic
      | Err e \<Rightarrow> Err e
      | Ok i \<Rightarrow>
          if i < length input then
            (if input ! i = dquote then skipString input i
             else if input ! i = CHR ''{'' \<or> input ! i = CHR ''['' then
               (case skipContainer_loop input (input ! i)
                       (char_of (of_char (input ! i) + (2 :: nat))) (i + 1) 0 False (input ! i) of
                  Panic \<Rightarrow> Panic
                | Err e \<Rightarrow> Err e
                | Ok i' \<Rightarrow> if i' = length input then Err UnexpectedEnd else Ok (i' + 1))
             else skipScalar_loop input i)
          else Panic)"

text \<open>\<^verbatim>\<open>seekToValue\<close>.\<close>

definition seekToValue :: "string \<Rightarrow> nat \<Rightarrow> nat result" where
  "seekToValue input i0 =
     (case skipSpaces input i0 of
        Panic \<Rightarrow> Panic
      | Err e \<Rightarrow> Err e
      | Ok i \<Rightarrow>
          if i < length input then
            (if input ! i \<noteq> CHR '':'' then Err ColonExpected else skipSpaces input (i + 1))
          else Panic)"

section \<open>Object key lookup\<close>

definition keySeek :: nat where "keySeek = 1"
definition keyOpen :: nat where "keyOpen = 2"
definition keyClose :: nat where "keyClose = 4"

text \<open>The inner loop of \<^verbatim>\<open>getKeyValue\<close>, on the state \<^verbatim>\<open>(i, state, k)\<close>.\<close>

function keyRead :: "string \<Rightarrow> nat \<Rightarrow> nat \<Rightarrow> string \<Rightarrow> (nat \<times> string \<times> nat) result" where
  "keyRead input i state k =
     (if i < length input then
        (if state \<noteq> keyClose then
           (if state = keySeek then
              keyRead input (i + 1) (if input ! i = dquote then keyOpen else state) k
            else if state = keyOpen then
              (if input ! i = dquote
               then keyRead input (i + 1) keyClose k
               else keyRead input (i + 1) state (k @ [input ! i]))
            else keyRead input (i + 1) state k)
         else Ok (state, k, i))
      else Panic)"
  by pat_completeness auto
termination
  by (relation "measure (\<lambda>(input, i, state, k). length input - i)") auto

declare keyRead.simps [simp del]

section \<open>Scans move forward\<close>

text \<open>
  A scanner that returns a position returns one that is not before the position it was
  given; the loop of \<^verbatim>\<open>getKeyValue\<close> terminates because of it.
\<close>

lemma skipSpaces_loop_ge: "skipSpaces_loop input i = Ok i' \<Longrightarrow> i \<le> i' \<and> i' < length input"
proof (induction input i rule: skipSpaces_loop.induct)
  case (1 input i)
  then show ?case
    by (subst (asm) (2) skipSpaces_loop.simps) (auto split: if_splits)
qed

lemma skipSpaces_ge: "skipSpaces input i = Ok i' \<Longrightarrow> i \<le> i' \<and> i' < length input"
proof -
  assume "skipSpaces input i = Ok i'"
  then have "skipSpaces_loop input i = Ok i'"
    by (cases "skipSpaces_loop input i") (simp_all add: skipSpaces_def split: if_splits)
  then show ?thesis by (rule skipSpaces_loop_ge)
qed

lemma skipString_loop_ge: "skipString_loop input i prev dn = Ok i' \<Longrightarrow> i \<le> i'"
proof (induction input i prev dn rule: skipString_loop.induct)
  case (1 input i prev dn)
  then show ?case
    by (subst (asm) (2) skipString_loop.simps) (auto split: if_splits)
qed

lemma skipString_ge: "skipString input i = Ok i' \<Longrightarrow> i < i'"
proof -
  assume "skipString input i = Ok i'"
  then have "skipString_loop input (i + 1) dquote False = Ok i'"
    by (cases "skipString_loop input (i + 1) dquote False")
       (simp_all add: skipString_def split: if_splits)
  then have "i + 1 \<le> i'" by (rule skipString_loop_ge)
  then show ?thesis by simp
qed

lemma skipContainer_loop_ge:
  "skipContainer_loop input mark unmark i nested instr prev = Ok i' \<Longrightarrow> i \<le> i'"
proof (induction input mark unmark i nested instr prev rule: skipContainer_loop.induct)
  case (1 input mark unmark i nested instr prev)
  then show ?case
    by (subst (asm) (2) skipContainer_loop.simps) (auto split: if_splits)
qed

lemma skipScalar_loop_ge: "skipScalar_loop input i = Ok i' \<Longrightarrow> i \<le> i'"
proof (induction input i rule: skipScalar_loop.induct)
  case (1 input i)
  then show ?case
    by (subst (asm) (2) skipScalar_loop.simps) (auto split: if_splits)
qed

lemma skipValue_after_spaces:
  assumes "skipValue input i = Ok i'"
  obtains j where "skipSpaces input i = Ok j"
proof (cases "skipSpaces input i")
  case (Ok j)
  then show ?thesis by (rule that)
next
  case (Err e)
  with assms show ?thesis by (simp add: skipValue_def)
next
  case Panic
  with assms show ?thesis by (simp add: skipValue_def)
qed

lemma skipValue_ge: "skipValue input i = Ok i' \<Longrightarrow> i \<le> i'"
proof -
  assume a: "skipValue input i = Ok i'"
  then obtain j where j: "skipSpaces input i = Ok j" by (rule skipValue_after_spaces)
  then have ij: "i \<le> j" and jl: "j < length input" by (simp_all add: skipSpaces_ge)
  have "j \<le> i'"
  proof (cases "input ! j = dquote")
    case True
    with a j jl have "skipString input j = Ok i'" by (simp add: skipValue_def)
    then show ?thesis using skipString_ge[of input j i'] by simp
  next
    case nq: False
    show ?thesis
    proof (cases "input ! j = CHR ''{'' \<or> input ! j = CHR ''[''")
      case True
      define r where "r = skipContainer_loop input (input ! j)
                       (char_of (of_char (input ! j) + (2 :: nat))) (j + 1) 0 False (input ! j)"
      from a j jl nq True have c: "(case r of
                  Panic \<Rightarrow> Panic
                | Err e \<Rightarrow> Err e
                | Ok i' \<Rightarrow> if i' = length input then Err UnexpectedEnd else Ok (i' + 1)) = Ok i'"
        unfolding r_def skipValue_def by (simp only: result.case if_True if_False)
      then obtain i2 where i2: "r = Ok i2" and "i' = i2 + 1"
        by (cases r) (simp_all split: if_splits)
      from i2 have "j + 1 \<le> i2" unfolding r_def by (rule skipContainer_loop_ge)
      with \<open>i' = i2 + 1\<close> show ?thesis by simp
    next
      case False
      with a j jl nq have "skipScalar_loop input j = Ok i'"
        unfolding skipValue_def by (simp only: result.case if_True if_False)
      then show ?thesis by (rule skipScalar_loop_ge)
    qed
  qed
  with ij show ?thesis by simp
qed

lemma seekToValue_ge: "seekToValue input i = Ok i' \<Longrightarrow> i < i'"
proof -
  assume a: "seekToValue input i = Ok i'"
  then obtain j where j: "skipSpaces input i = Ok j"
    by (cases "skipSpaces input i") (simp_all add: seekToValue_def)
  then have ij: "i \<le> j" by (simp add: skipSpaces_ge)
  from a j have "skipSpaces input (j + 1) = Ok i'"
    by (simp add: seekToValue_def split: if_splits)
  then have "j + 1 \<le> i'" by (simp add: skipSpaces_ge)
  with ij show ?thesis by simp
qed

lemma keyRead_ge: "keyRead input i state k = Ok (state', k', i') \<Longrightarrow> i \<le> i'"
proof (induction input i state k rule: keyRead.induct)
  case (1 input i state k)
  note eq = "1.prems"[unfolded keyRead.simps[of input i state k]]
  show ?case
  proof (cases "i < length input \<and> state \<noteq> keyClose")
    case False
    with eq show ?thesis by (auto split: if_splits)
  next
    case True
    then consider (a) "state = keySeek"
      | (b) "state \<noteq> keySeek" "state = keyOpen" "input ! i = dquote"
      | (c) "state \<noteq> keySeek" "state = keyOpen" "input ! i \<noteq> dquote"
      | (d) "state \<noteq> keySeek" "state \<noteq> keyOpen" by blast
    then have "i + 1 \<le> i'"
    proof cases
      case a
      with True eq have
        "keyRead input (i + 1) (if input ! i = dquote then keyOpen else state) k = Ok (state', k', i')"
        by simp
      with "1.IH"(1) True a show ?thesis by simp
    next
      case b
      with True eq have "keyRead input (i + 1) keyClose k = Ok (state', k', i')" by simp
      with "1.IH"(2) True b show ?thesis by simp
    next
      case c
      with True eq have "keyRead input (i + 1) state (k @ [input ! i]) = Ok (state', k', i')"
        by simp
      with "1.IH"(3) True c show ?thesis by simp
    next
      case d
      with True eq have "keyRead input (i + 1) state k = Ok (state', k', i')" by simp
      with "1.IH"(4) True d show ?thesis by simp
    qed
    then show ?thesis by simp
  qed
qed

lemma keyRead_gt: "keyRead input i keySeek k = Ok (state', k', i') \<Longrightarrow> i < i'"
proof -
  assume a: "keyRead input i keySeek k = Ok (state', k', i')"
  note eq = a[unfolded keyRead.simps[of input i keySeek k]]
  have ne: "keySeek \<noteq> keyClose" by (simp add: keySeek_def keyClose_def)
  from eq have il: "i < length input" by (simp split: if_splits)
  with eq ne have "keyRead input (i + 1) (if input ! i = dquote then keyOpen else keySeek) k
             = Ok (state', k', i')"
    by simp
  then have "i + 1 \<le> i'" by (rule keyRead_ge)
  then show ?thesis by simp
qed

text \<open>
  The outer loop of \<^verbatim>\<open>getKeyValue\<close>. The source returns the slice \<^verbatim>\<open>input[i:]\<close>; the
  position \<^verbatim>\<open>i\<close> stands for it here.
\<close>

function getKeyValue_loop :: "string \<Rightarrow> string \<Rightarrow> nat \<Rightarrow> nat result" where
  "getKeyValue_loop input key i =
     (if i < length input \<and> input ! i \<noteq> CHR ''}'' then
        (case keyRead input i keySeek [] of
           Panic \<Rightarrow> Panic
         | Err e \<Rightarrow> Err e
         | Ok (state, k, i1) \<Rightarrow>
             if state = keyClose then
               (case seekToValue input i1 of
                  Panic \<Rightarrow> Panic
                | Err e \<Rightarrow> Err e
                | Ok i2 \<Rightarrow>
                    if key = k then Ok i2
                    else
                      (case skipValue input i2 of
                         Panic \<Rightarrow> Panic
                       | Err e \<Rightarrow> Err e
                       | Ok i3 \<Rightarrow> getKeyValue_loop input key i3))
             else getKeyValue_loop input key i1)
      else Err (FieldNotFound key))"
  by pat_completeness auto
termination
proof (relation "measure (\<lambda>(input, key, i). length input - i)")
  show "wf (measure (\<lambda>(input, key, i). length input - i))" by (rule wf_measure)
next
  fix input key :: string and i :: nat and x1 :: "nat \<times> string \<times> nat" and state :: nat
    and y :: "string \<times> nat" and k :: string and i1 i2 i3 :: nat
  assume c: "i < length input \<and> input ! i \<noteq> CHR ''}''"
    and r: "keyRead input i keySeek [] = Ok x1" and "(state, y) = x1" and "(k, i1) = y"
    and "state = keyClose" and s: "seekToValue input i1 = Ok i2" and "key \<noteq> k"
    and v: "skipValue input i2 = Ok i3"
  from r \<open>(state, y) = x1\<close> \<open>(k, i1) = y\<close> have "keyRead input i keySeek [] = Ok (state, k, i1)"
    by simp
  then have "i < i1" by (rule keyRead_gt)
  moreover from s have "i1 < i2" by (rule seekToValue_ge)
  moreover from v have "i2 \<le> i3" by (rule skipValue_ge)
  ultimately have "length input - i3 < length input - i" using c by arith
  then show "((input, key, i3), (input, key, i)) \<in> measure (\<lambda>(input, key, i). length input - i)"
    by simp
next
  fix input key :: string and i :: nat and x1 :: "nat \<times> string \<times> nat" and state :: nat
    and y :: "string \<times> nat" and k :: string and i1 :: nat
  assume c: "i < length input \<and> input ! i \<noteq> CHR ''}''"
    and r: "keyRead input i keySeek [] = Ok x1" and "(state, y) = x1" and "(k, i1) = y"
    and "state \<noteq> keyClose"
  from r \<open>(state, y) = x1\<close> \<open>(k, i1) = y\<close> have "keyRead input i keySeek [] = Ok (state, k, i1)"
    by simp
  then have "i < i1" by (rule keyRead_gt)
  then have "length input - i1 < length input - i" using c by arith
  then show "((input, key, i1), (input, key, i)) \<in> measure (\<lambda>(input, key, i). length input - i)"
    by simp
qed

declare getKeyValue_loop.simps [simp del]

definition getKeyValue :: "string \<Rightarrow> string \<Rightarrow> nat result" where
  "getKeyValue input key =
     (if length input = 0 then Panic
      else if input ! 0 \<noteq> CHR ''{'' then Err ObjectExpected
      else getKeyValue_loop input key 1)"

text \<open>\<^verbatim>\<open>checkValueType\<close>; \<open>None\<close> is the nil error.\<close>

definition checkValueType :: "string \<Rightarrow> tToken \<Rightarrow> error option" where
  "checkValueType input tok =
     (if length input < 2 then Some UnexpectedEnd
      else if 0 <s (Type tok AND cSubject) then None
      else if input ! 0 = CHR ''['' \<and> Type tok AND cArrayType = 0 \<and> Type tok AND cIsTerminal = 0
      then Some (ObjectExpectedAt (Key tok))
      else if input ! 0 = CHR ''{'' \<and> 0 <s (Type tok AND cArrayType)
      then Some (ArrayExpectedAt (Key tok))
      else if input ! 0 \<noteq> CHR ''{'' \<and> input ! 0 \<noteq> CHR ''['' \<and> Type tok AND cIsTerminal = 0
      then Some (ComplexExpectedAt (Key tok))
      else None)"

section \<open>Slices of the input buffer\<close>

text \<open>
  A Go slice is a window on a backing array, and \<^verbatim>\<open>input[i:]\<close>, \<^verbatim>\<open>input[a:b]\<close> are windows
  on the same array. The backing array of the caller's buffer is \<open>mem\<close>; a slice of it is
  its offset and length, its capacity reaching to the end of \<open>mem\<close>. The scanners only read
  and are given the bytes of the window. \<^verbatim>\<open>sliceArray\<close> is the one function that calls
  \<^verbatim>\<open>append\<close> on a window of the input, so it and its caller \<^verbatim>\<open>getValue\<close> take the array and
  return it.
\<close>

record slice =
  off :: nat
  len :: nat

definition bytes :: "string \<Rightarrow> slice \<Rightarrow> string" where
  "bytes mem s = take (len s) (drop (off s) mem)"

text \<open>The slice expression \<^verbatim>\<open>s[lo:hi]\<close>: it panics unless \<^verbatim>\<open>lo <= hi <= cap(s)\<close>.\<close>

definition reslice :: "string \<Rightarrow> slice \<Rightarrow> nat \<Rightarrow> nat \<Rightarrow> slice result" where
  "reslice mem s lo hi =
     (if lo \<le> hi \<and> off s + hi \<le> length mem
      then Ok \<lparr>off = off s + lo, len = hi - lo\<rparr>
      else Panic)"

text \<open>
  \<^verbatim>\<open>append(x, ']')\<close> for a window \<open>x\<close> of \<open>mem\<close>: when the capacity of \<open>x\<close> exceeds its
  length the byte is stored in the backing array, right after the window; otherwise a new
  array is allocated and \<open>mem\<close> stays as it is.
\<close>

definition appendByte :: "string \<Rightarrow> slice \<Rightarrow> char \<Rightarrow> string" where
  "appendByte mem x c =
     (if off x + len x < length mem then mem[off x + len x := c] else mem)"

section \<open>The array range selector\<close>

record tElem =
  start :: nat
  endp :: nat

text \<open>
  The element scan of \<^verbatim>\<open>sliceArray\<close>, lines 247 to 258, on the state \<^verbatim>\<open>(i, elems)\<close>.
  Nothing in the loop makes \<^verbatim>\<open>i\<close> grow, so the loop is a partial function: \<open>None\<close> is
  the run that never leaves the loop.
\<close>

partial_function (option) scanElems :: "string \<Rightarrow> nat \<Rightarrow> tElem list \<Rightarrow> tElem list result option" where
  "scanElems input i elems =
     (if i < length input then
        (if input ! i \<noteq> CHR '']'' then
           (case skipValue input i of
              Panic \<Rightarrow> Some Panic
            | Err e \<Rightarrow> Some (Err e)
            | Ok e \<Rightarrow>
                (case skipSpaces input e of
                   Panic \<Rightarrow> Some Panic
                 | Err x \<Rightarrow> Some (Err x)
                 | Ok i' \<Rightarrow> scanElems input i' (elems @ [\<lparr>start = i, endp = e\<rparr>])))
         else Some (Ok elems))
      else Some Panic)"

declare scanElems.simps [code]

text \<open>
  What \<^verbatim>\<open>sliceArray\<close> returns: a window of the input (single index), or the new array
  that the outer \<^verbatim>\<open>append([]byte{'['}, ...)\<close> allocates (range).
\<close>

datatype selection = Alias slice | Fresh string

text \<open>
  The selection, lines 259 to 286. \<^verbatim>\<open>len(elems)\<close> converts to \<^verbatim>\<open>int\<close>; \<^verbatim>\<open>elems[a]\<close> panics
  out of range.
\<close>

definition selectElems :: "string \<Rightarrow> slice \<Rightarrow> tToken \<Rightarrow> tElem list \<Rightarrow> (selection \<times> string) result" where
  "selectElems mem s tok elems =
     (if Type tok AND cArrBounded = 0 then
        (if (if Left tok <s 0 then Left tok + word_of_nat (length elems) else Left tok) <s 0
            \<or> word_of_nat (length elems)
                 \<le>s (if Left tok <s 0 then Left tok + word_of_nat (length elems) else Left tok)
         then Err (IndexNotExist (Key tok) (Left tok))
         else if unat (if Left tok <s 0 then Left tok + word_of_nat (length elems) else Left tok)
                   < length elems
         then
           (case reslice mem s
                   (start (elems ! unat (if Left tok <s 0 then Left tok + word_of_nat (length elems) else Left tok)))
                   (endp (elems ! unat (if Left tok <s 0 then Left tok + word_of_nat (length elems) else Left tok))) of
              Panic \<Rightarrow> Panic
            | Err e \<Rightarrow> Err e
            | Ok x \<Rightarrow> Ok (Alias x, mem))
         else Panic)
      else
        (let a = (if Left tok <s 0 then Left tok + word_of_nat (length elems) else Left tok);
             b0 = (if Right tok = 0 then word_of_nat (length elems) else Right tok);
             b = (if b0 <s 0 then b0 + word_of_nat (length elems) else b0) - 1
         in
           if a <s 0 \<or> word_of_nat (length elems) \<le>s a \<or> b <s 0 \<or> word_of_nat (length elems) \<le>s b
           then Err (RangeNotExist (Key tok) (Left tok) (Right tok))
           else if unat a < length elems \<and> unat b < length elems then
             (case reslice mem s (start (elems ! unat a)) (endp (elems ! unat b)) of
                Panic \<Rightarrow> Panic
              | Err e \<Rightarrow> Err e
              | Ok x \<Rightarrow>
                  Ok (Fresh (CHR ''['' # bytes mem x @ [CHR '']'']), appendByte mem x (CHR '']'')))
           else Panic))"

definition sliceArray :: "string \<Rightarrow> slice \<Rightarrow> tToken \<Rightarrow> (selection \<times> string) result option" where
  "sliceArray mem s tok =
     (if length (bytes mem s) = 0 then Some Panic
      else if bytes mem s ! 0 \<noteq> CHR ''['' then Some (Err (ArrayNotFound (Key tok)))
      else
        (case scanElems (bytes mem s) 1 [] of
           None \<Rightarrow> None
         | Some Panic \<Rightarrow> Some Panic
         | Some (Err e) \<Rightarrow> Some (Err e)
         | Some (Ok elems) \<Rightarrow> Some (selectElems mem s tok elems)))"

fun selBytes :: "string \<Rightarrow> selection \<Rightarrow> string" where
  "selBytes mem (Alias x) = bytes mem x"
| "selBytes mem (Fresh buf) = buf"

section \<open>The function dispatcher\<close>

text \<open>\<^verbatim>\<open>strconv.Itoa\<close> of a number that is not negative: its decimal digits.\<close>

function itoa :: "nat \<Rightarrow> string" where
  "itoa n = (if n < 10 then [''0123456789'' ! n] else itoa (n div 10) @ [''0123456789'' ! (n mod 10)])"
  by pat_completeness auto
termination
  by (relation "measure id") auto

declare itoa.simps [simp del]

text \<open>The element count of \<^verbatim>\<open>doFunc\<close>, lines 422 to 433, on the state \<^verbatim>\<open>(i, result)\<close>.\<close>

partial_function (option) countElems :: "string \<Rightarrow> nat \<Rightarrow> nat \<Rightarrow> nat result option" where
  "countElems input i result =
     (if i < length input then
        (if input ! i \<noteq> CHR '']'' then
           (case skipValue input i of
              Panic \<Rightarrow> Some Panic
            | Err e \<Rightarrow> Some (Err e)
            | Ok e \<Rightarrow>
                (case skipSpaces input e of
                   Panic \<Rightarrow> Some Panic
                 | Err x \<Rightarrow> Some (Err x)
                 | Ok i' \<Rightarrow> countElems input i' (result + 1)))
         else Some (Ok result))
      else Some Panic)"

declare countElems.simps [code]

text \<open>\<^verbatim>\<open>doFunc\<close>; its token is the pointer \<^verbatim>\<open>tok.Next\<close> of the caller.\<close>

definition doFunc :: "string \<Rightarrow> tToken option \<Rightarrow> string result option" where
  "doFunc input tokp =
     (case tokp of
        None \<Rightarrow> Some Panic
      | Some tok \<Rightarrow>
          if Key tok = ''size'' then
            (case skipValue input 0 of
               Panic \<Rightarrow> Some Panic
             | Err e \<Rightarrow> Some (Err e)
             | Ok r \<Rightarrow> Some (Ok (itoa r)))
          else if Key tok = ''length'' then
            (if length input = 0 then Some Panic
             else if input ! 0 = dquote then
               (case skipString input 0 of
                  Panic \<Rightarrow> Some Panic
                | Err e \<Rightarrow> Some (Err e)
                | Ok r \<Rightarrow> Some (Ok (itoa r)))
             else if input ! 0 = CHR ''['' then
               (case countElems input 1 0 of
                  None \<Rightarrow> None
                | Some Panic \<Rightarrow> Some Panic
                | Some (Err e) \<Rightarrow> Some (Err e)
                | Some (Ok r) \<Rightarrow> Some (Ok (itoa r)))
             else Some (Err LengthNotApplicable))
          else Some (Ok (itoa 0)))"

section \<open>The evaluator\<close>

text \<open>
  \<^verbatim>\<open>getValue\<close>, on the window \<open>s\<close> of the array \<open>mem\<close>; its token is a pointer, and the
  first use of a nil one (\<^verbatim>\<open>tok.Key\<close>, line 146) panics. It returns the bytes of the
  result together with the array as the call leaves it. A result of \<^verbatim>\<open>sliceArray\<close> that
  is a new array is searched in that array, and what is stored there is not stored in
  \<open>mem\<close>.
\<close>

fun chainLength :: "tToken option \<Rightarrow> nat" where
  "chainLength None = 0"
| "chainLength (Some (Token k ty l r nx)) = Suc (chainLength nx)"

lemma chainLength_Next: "chainLength (Next tok) < chainLength (Some tok)"
  by (cases tok) simp

function getValue :: "string \<Rightarrow> slice \<Rightarrow> tToken option \<Rightarrow> (string \<times> string) result option" where
  "getValue mem s tokp =
     (case skipSpaces (bytes mem s) 0 of
        Panic \<Rightarrow> Some Panic
      | Err e \<Rightarrow> Some (Err e)
      | Ok i \<Rightarrow>
          (case reslice mem s i (len s) of
             Panic \<Rightarrow> Some Panic
           | Err e \<Rightarrow> Some (Err e)
           | Ok s1 \<Rightarrow>
               if length (bytes mem s1) = 0 then Some (Err UnexpectedEnd)
               else if bytes mem s1 ! 0 \<noteq> CHR ''{'' \<and> bytes mem s1 ! 0 \<noteq> CHR ''[''
               then Some (Err ContainerExpected)
               else
                 (case tokp of
                    None \<Rightarrow> Some Panic
                  | Some tok \<Rightarrow>
                      (case (if Key tok \<noteq> ''$'' then
                               (case getKeyValue (bytes mem s1) (Key tok) of
                                  Panic \<Rightarrow> Panic
                                | Err e \<Rightarrow> Err e
                                | Ok j \<Rightarrow> reslice mem s1 j (len s1))
                             else Ok s1) of
                         Panic \<Rightarrow> Some Panic
                       | Err e \<Rightarrow> Some (Err e)
                       | Ok s2 \<Rightarrow>
                           (case checkValueType (bytes mem s2) tok of
                              Some e \<Rightarrow> Some (Err e)
                            | None \<Rightarrow>
                                if 0 <s (Type tok AND cSubject) then
                                  (case doFunc (bytes mem s2) (Next tok) of
                                     None \<Rightarrow> None
                                   | Some Panic \<Rightarrow> Some Panic
                                   | Some (Err e) \<Rightarrow> Some (Err e)
                                   | Some (Ok r) \<Rightarrow> Some (Ok (r, mem)))
                                else if 0 <s (Type tok AND cIsTerminal) then
                                  (if 0 <s (Type tok AND cArrayType) then
                                     (case sliceArray mem s2 tok of
                                        None \<Rightarrow> None
                                      | Some Panic \<Rightarrow> Some Panic
                                      | Some (Err e) \<Rightarrow> Some (Err e)
                                      | Some (Ok (sel, mem')) \<Rightarrow> Some (Ok (selBytes mem' sel, mem')))
                                   else
                                     (case skipValue (bytes mem s2) 0 of
                                        Panic \<Rightarrow> Some Panic
                                      | Err e \<Rightarrow> Some (Err e)
                                      | Ok eoe \<Rightarrow>
                                          (case reslice mem s2 0 eoe of
                                             Panic \<Rightarrow> Some Panic
                                           | Err e \<Rightarrow> Some (Err e)
                                           | Ok s3 \<Rightarrow> Some (Ok (bytes mem s3, mem)))))
                                else if 0 <s (Type tok AND cArrayType) then
                                  (case sliceArray mem s2 tok of
                                     None \<Rightarrow> None
                                   | Some Panic \<Rightarrow> Some Panic
                                   | Some (Err e) \<Rightarrow> Some (Err e)
                                   | Some (Ok (Alias s3, mem')) \<Rightarrow> getValue mem' s3 (Next tok)
                                   | Some (Ok (Fresh buf, mem')) \<Rightarrow>
                                       (case getValue buf \<lparr>off = 0, len = length buf\<rparr> (Next tok) of
                                          None \<Rightarrow> None
                                        | Some Panic \<Rightarrow> Some Panic
                                        | Some (Err e) \<Rightarrow> Some (Err e)
                                        | Some (Ok (r, buf')) \<Rightarrow> Some (Ok (r, mem'))))
                                else getValue mem s2 (Next tok))))))"
  by pat_completeness auto
termination
  apply (relation "measure (\<lambda>(mem, s, tokp). chainLength tokp)")
     apply (rule wf_measure)
    apply (simp_all only: in_measure prod.case chainLength_Next)
  done

declare getValue.simps [simp del]

text \<open>
  \<^verbatim>\<open>Get\<close>. \<^verbatim>\<open>path[0]\<close> is read before anything else. The buffer of the caller is a whole
  array; the second component of the result is that buffer after the call.
\<close>

definition Get :: "string \<Rightarrow> string \<Rightarrow> (string \<times> string) result option" where
  "Get input path =
     (if length path = 0 then Some Panic
      else if path ! 0 \<noteq> CHR ''$'' then Some (Err DollarExpected)
      else
        (case parsePath path of
           Panic \<Rightarrow> Some Panic
         | Err e \<Rightarrow> Some (Err e)
         | Ok tokens \<Rightarrow> getValue input \<lparr>off = 0, len = length input\<rparr> (Some tokens)))"

section \<open>The element scan can stop advancing\<close>

text \<open>
  One pass of the element scan of \<^verbatim>\<open>sliceArray\<close>, and the state from which it never
  returns: a position \<^verbatim>\<open>i\<close> that is not at \<^verbatim>\<open>]\<close> and at which both \<^verbatim>\<open>skipValue\<close> and
  \<^verbatim>\<open>skipSpaces\<close> return \<^verbatim>\<open>i\<close> itself. A \<^verbatim>\<open>}\<close> is such a position: it ends the number
  loop of \<^verbatim>\<open>skipValue\<close> at once and is no separator.
\<close>

lemma scanElems_step:
  "i < length input \<Longrightarrow> input ! i \<noteq> CHR '']'' \<Longrightarrow> skipValue input i = Ok e \<Longrightarrow>
   skipSpaces input e = Ok i' \<Longrightarrow>
   scanElems input i elems = scanElems input i' (elems @ [\<lparr>start = i, endp = e\<rparr>])"
  by (subst scanElems.simps) simp

lemma scanElems_Some_not_stuck:
  assumes "scanElems inp j es = Some y"
  shows "\<not> (j < length inp \<and> inp ! j \<noteq> CHR '']'' \<and> skipValue inp j = Ok j \<and> skipSpaces inp j = Ok j)"
proof (rule scanElems.raw_induct
    [where P = "\<lambda>inp j es y. \<not> (j < length inp \<and> inp ! j \<noteq> CHR '']'' \<and> skipValue inp j = Ok j
                                  \<and> skipSpaces inp j = Ok j)", OF _ assms])
  fix scan :: "string \<Rightarrow> nat \<Rightarrow> tElem list \<Rightarrow> tElem list result option"
    and input i elems r
  assume IH: "\<And>i elems b y. scan i elems b = Some y \<Longrightarrow>
     \<not> (elems < length i \<and> i ! elems \<noteq> CHR '']'' \<and> skipValue i elems = Ok elems
         \<and> skipSpaces i elems = Ok elems)"
    and body: "(if i < length input
      then if input ! i \<noteq> CHR '']''
           then case skipValue input i of
                Ok e \<Rightarrow>
                  (case skipSpaces input e of
                  Ok i' \<Rightarrow>
                    scan input i' (elems @ [\<lparr>start = i, endp = e\<rparr>])
                  | Err x \<Rightarrow> Some (Err x) | Panic \<Rightarrow> Some Panic)
                | Err e \<Rightarrow> Some (Err e) | Panic \<Rightarrow> Some Panic
           else Some (Ok elems)
      else Some Panic) = Some r"
  show "\<not> (i < length input \<and> input ! i \<noteq> CHR '']'' \<and> skipValue input i = Ok i
            \<and> skipSpaces input i = Ok i)"
  proof
    assume c: "i < length input \<and> input ! i \<noteq> CHR '']'' \<and> skipValue input i = Ok i
            \<and> skipSpaces input i = Ok i"
    with body have "scan input i (elems @ [\<lparr>start = i, endp = i\<rparr>]) = Some r" by simp
    from IH[OF this] c show False by simp
  qed
qed

lemma scanElems_stuck:
  "j < length inp \<Longrightarrow> inp ! j \<noteq> CHR '']'' \<Longrightarrow> skipValue inp j = Ok j \<Longrightarrow>
   skipSpaces inp j = Ok j \<Longrightarrow> scanElems inp j es = None"
  using scanElems_Some_not_stuck[of inp j es] by (cases "scanElems inp j es") auto

section \<open>The claims\<close>

text \<open>
  C1. The claim: for every input buffer and every path, \<^verbatim>\<open>Get\<close> leaves the bytes of the
  input buffer unchanged, also when a terminal range selector builds its bracketed
  result, which must be a new buffer and not a write through the input.

  The code at the buffer \<^verbatim>\<open>["a","b","c"]\<close> and the path \<^verbatim>\<open>$[0:2]\<close>: the inner
  \<^verbatim>\<open>append(input[1:8], ']')\<close> of line 286 has room in the backing array of the input and
  stores \<^verbatim>\<open>]\<close> at \<^verbatim>\<open>input[8]\<close>, over the comma. The call returns \<^verbatim>\<open>["a","b"]\<close> and leaves
  the buffer of the caller as \<^verbatim>\<open>["a","b"]"c"]\<close>.
\<close>

theorem Get_range_writes_input:
  \<open>Get ''["a","b","c"]'' ''$[0:2]'' = Some (Ok (''["a","b"]'', ''["a","b"]"c"]''))\<close>
  by code_simp

text \<open>
  C3. The claim: \<^verbatim>\<open>Get\<close> is total, returning a byte slice or an error and never
  crashing; an empty path fails with an invalid-path error, and a buffer exhausted in
  the middle of a scan (an unterminated string, a buffer of separator bytes only) fails
  with the unexpected-end error.

  The code: \<^verbatim>\<open>Get\<close> reads \<^verbatim>\<open>path[0]\<close> before \<^verbatim>\<open>parsePath\<close> can test \<^verbatim>\<open>l == 0\<close>, so the
  empty path panics on every buffer. The loops read \<^verbatim>\<open>input[i]\<close> in their post
  statement, so a scan that reaches the end of the buffer panics before the test
  \<^verbatim>\<open>i == l\<close> that would return the error: the buffer of one space, and the buffer
  \<^verbatim>\<open>{"a":"x\<close> with the path \<^verbatim>\<open>$.a\<close>.
\<close>

theorem Get_panics:
  \<open>Get input [] = Some Panic \<and> Get '' '' ''$'' = Some Panic \<and> Get ''{"a":"x'' ''$.a'' = Some Panic\<close>
proof -
  have "Get input [] = Some Panic" by (simp add: Get_def)
  moreover have "Get '' '' ''$'' = Some Panic" by code_simp
  moreover have \<open>Get ''{"a":"x'' ''$.a'' = Some Panic\<close> by code_simp
  ultimately show ?thesis by simp
qed

text \<open>
  C4. The claim: for a well-formed buffer and a path that resolves to a scalar, the
  bytes returned are exactly the scalar, with no adjacent delimiter such as a trailing
  \<^verbatim>\<open>]\<close>, in particular for the last number of an array selected by a single index.

  The code at the buffer \<^verbatim>\<open>{"a":[1,2], "b":[3, 4 ]}\<close> and the path \<^verbatim>\<open>$.a[1]\<close>: the number
  loop of \<^verbatim>\<open>skipValue\<close> does not stop at \<^verbatim>\<open>]\<close>, the element found is \<^verbatim>\<open>2]\<close>, and the scan
  runs on into the rest of the object until it meets the \<^verbatim>\<open>]\<close> that follows a space.
\<close>

theorem Get_last_number_keeps_bracket:
  \<open>Get ''{"a":[1,2], "b":[3, 4 ]}'' ''$.a[1]'' = Some (Ok (''2]'', ''{"a":[1,2], "b":[3, 4 ]}''))\<close>
  by code_simp

text \<open>
  C5. The claim: a terminal single index \<^verbatim>\<open>[n]\<close> whose resolved value lies in
  \<^verbatim>\<open>[0, count)\<close> returns that element, so that \<^verbatim>\<open>$[-1]\<close> on \<^verbatim>\<open>[10,20,30]\<close> yields \<^verbatim>\<open>30\<close>;
  otherwise the call fails with the index error.

  The code at that buffer and path: the number loop runs over \<^verbatim>\<open>30]\<close> to the end of the
  buffer and its post statement reads \<^verbatim>\<open>input[10]\<close>.
\<close>

theorem Get_negative_index_panics:
  \<open>Get ''[10,20,30]'' ''$[-1]'' = Some Panic\<close>
  by code_simp

text \<open>
  C7. The claim: in string values and in object keys alike, a quote that follows a
  backslash does not end the string, so an escaped quote in a key never ends the key
  comparison early.

  The code: \<^verbatim>\<open>skipString\<close> looks at the previous byte, the key loop of \<^verbatim>\<open>getKeyValue\<close>
  does not. In the object whose only key is \<^verbatim>\<open>a\"b\<close> the key read is \<^verbatim>\<open>a\\<close>, the scan
  goes on at \<^verbatim>\<open>b\<close>, and the lookup of that very key fails with \<^verbatim>\<open>":" expected\<close>. A string
  value with the same escaped quote is skipped as one value.
\<close>

theorem Get_escaped_quote_in_key:
  \<open>Get (''{"a'' @ [bslash] @ ''"b":1}'') (''$.a'' @ [bslash] @ ''"b'') = Some (Err ColonExpected)
   \<and> Get (''{"k":"a'' @ [bslash] @ ''"b","z":1}'') ''$.z''
       = Some (Ok (''1'', ''{"k":"a'' @ [bslash] @ ''"b","z":1}''))\<close>
  by code_simp

lemma countElems_step:
  "i < length input \<Longrightarrow> input ! i \<noteq> CHR '']'' \<Longrightarrow> skipValue input i = Ok e \<Longrightarrow>
   skipSpaces input e = Ok i' \<Longrightarrow>
   countElems input i n = countElems input i' (n + 1)"
  by (subst countElems.simps) simp

lemma countElems_Some_not_stuck:
  assumes "countElems inp j n = Some y"
  shows "\<not> (j < length inp \<and> inp ! j \<noteq> CHR '']'' \<and> skipValue inp j = Ok j \<and> skipSpaces inp j = Ok j)"
proof (rule countElems.raw_induct
    [where P = "\<lambda>inp j n y. \<not> (j < length inp \<and> inp ! j \<noteq> CHR '']'' \<and> skipValue inp j = Ok j
                                  \<and> skipSpaces inp j = Ok j)", OF _ assms])
  fix count :: "string \<Rightarrow> nat \<Rightarrow> nat \<Rightarrow> nat result option"
    and input i n r
  assume IH: "\<And>i elems b y. count i elems b = Some y \<Longrightarrow>
     \<not> (elems < length i \<and> i ! elems \<noteq> CHR '']'' \<and> skipValue i elems = Ok elems
         \<and> skipSpaces i elems = Ok elems)"
    and body: "(if i < length input
      then if input ! i \<noteq> CHR '']''
           then case skipValue input i of
                Ok e \<Rightarrow>
                  (case skipSpaces input e of
                  Ok i' \<Rightarrow> count input i' (n + 1)
                  | Err x \<Rightarrow> Some (Err x) | Panic \<Rightarrow> Some Panic)
                | Err e \<Rightarrow> Some (Err e) | Panic \<Rightarrow> Some Panic
           else Some (Ok n)
      else Some Panic) = Some r"
  show "\<not> (i < length input \<and> input ! i \<noteq> CHR '']'' \<and> skipValue input i = Ok i
            \<and> skipSpaces input i = Ok i)"
  proof
    assume c: "i < length input \<and> input ! i \<noteq> CHR '']'' \<and> skipValue input i = Ok i
            \<and> skipSpaces input i = Ok i"
    with body have "count input i (n + 1) = Some r" by simp
    from IH[OF this] c show False by simp
  qed
qed

lemma countElems_stuck:
  "j < length inp \<Longrightarrow> inp ! j \<noteq> CHR '']'' \<Longrightarrow> skipValue inp j = Ok j \<Longrightarrow>
   skipSpaces inp j = Ok j \<Longrightarrow> countElems inp j n = None"
  using countElems_Some_not_stuck[of inp j n] by (cases "countElems inp j n") auto

lemma Get_parsed:
  "path \<noteq> [] \<Longrightarrow> path ! 0 = CHR ''$'' \<Longrightarrow> parsePath path = Ok tok \<Longrightarrow>
   Get input path = getValue input \<lparr>off = 0, len = length input\<rparr> (Some tok)"
  by (simp add: Get_def)

text \<open>
  C2. The claim: every evaluation ends with a byte slice or an error after a bounded
  forward scan in which each step advances the position; in particular the element scan
  of the range selector and the element count of \<^verbatim>\<open>length()\<close> end on every buffer, also
  on arrays whose last element is a number, a boolean or null.

  The code at the buffer \<^verbatim>\<open>{"a":[1]}\<close>: \<^verbatim>\<open>skipValue\<close> scans the element \<^verbatim>\<open>1]\<close> up to the
  \<^verbatim>\<open>}\<close> of the object, at position 3 of the window \<^verbatim>\<open>[1]}\<close>. There the byte is not \<^verbatim>\<open>]\<close>,
  \<^verbatim>\<open>skipValue\<close> returns 3 and \<^verbatim>\<open>skipSpaces\<close> returns 3: the loops of lines 247 and 422
  repeat that pass for ever, with the paths \<^verbatim>\<open>$.a[0]\<close> and \<^verbatim>\<open>$.a.length()\<close>.
\<close>

theorem Get_never_returns:
  \<open>Get ''{"a":[1]}'' ''$.a[0]'' = None \<and> Get ''{"a":[1]}'' ''$.a.length()'' = None\<close>
proof -
  let ?M = \<open>''{"a":[1]}''\<close>
  let ?S = "\<lparr>off = 0, len = 9\<rparr>"
  let ?W = "\<lparr>off = 5, len = 4\<rparr>"
  let ?ta = "Token ''a'' 5 0 0 None"
  let ?tl = "Token ''length'' 12 0 0 None"
  let ?tb = "Token ''a'' 16 0 0 (Some ?tl)"
  have pp: "parsePath ''$.a[0]'' = Ok (Token ''$'' 0 0 0 (Some ?ta))" by code_simp
  have pq: "parsePath ''$.a.length()'' = Ok (Token ''$'' 0 0 0 (Some ?tb))" by code_simp
  have f1: "skipSpaces (bytes ?M ?S) 0 = Ok 0" by code_simp
  have f2: "reslice ?M ?S 0 9 = Ok ?S" by code_simp
  have f3: "length (bytes ?M ?S) = 9" by code_simp
  have f4: "bytes ?M ?S ! 0 = CHR ''{''" by code_simp
  have f5: "getKeyValue (bytes ?M ?S) ''a'' = Ok 5" by code_simp
  have f6: "reslice ?M ?S 5 9 = Ok ?W" by code_simp
  have f7: "checkValueType (bytes ?M ?W) ?ta = None" "checkValueType (bytes ?M ?W) ?tb = None"
    by code_simp+
  have f8: "checkValueType (bytes ?M ?S) (Token ''$'' 0 0 0 nx) = None" for nx
    by (simp add: checkValueType_def f3 f4 cSubject_def cArrayType_def cIsTerminal_def)
  have f9: "bytes ?M ?W = ''[1]}''" by code_simp
  have w5: "\<not> 0 <s ((5 :: 8 word) AND cSubject)" "0 <s ((5 :: 8 word) AND cIsTerminal)"
    "0 <s ((5 :: 8 word) AND cArrayType)" by code_simp+
  have w0: "\<not> 0 <s ((0 :: 8 word) AND cSubject)" "\<not> 0 <s ((0 :: 8 word) AND cIsTerminal)"
    "\<not> 0 <s ((0 :: 8 word) AND cArrayType)" by code_simp+
  have w16: "0 <s ((16 :: 8 word) AND cSubject)" by code_simp
  have v1: "skipValue ''[1]}'' 1 = Ok 3" by code_simp
  have v3: "skipValue ''[1]}'' 3 = Ok 3" by code_simp
  have s3: "skipSpaces ''[1]}'' 3 = Ok 3" by code_simp
  have scan: "scanElems ''[1]}'' 1 [] = None"
  proof -
    have "scanElems ''[1]}'' 1 [] = scanElems ''[1]}'' 3 ([] @ [\<lparr>start = 1, endp = 3\<rparr>])"
      by (rule scanElems_step) (simp_all add: v1 v1[simplified] s3)
    also have "\<dots> = None" by (rule scanElems_stuck) (simp_all add: v3 s3)
    finally show ?thesis .
  qed
  have count: "countElems ''[1]}'' 1 0 = None"
  proof -
    have "countElems ''[1]}'' 1 0 = countElems ''[1]}'' 3 (0 + 1)"
      by (rule countElems_step[where e = 3]) (simp_all add: v1 v1[simplified] s3)
    also have "\<dots> = None" by (rule countElems_stuck) (simp_all add: v3 s3)
    finally show ?thesis .
  qed
  have sl: "sliceArray ?M ?W ?ta = None"
    unfolding sliceArray_def f9 by (simp add: scan[simplified])
  have df: "doFunc (bytes ?M ?W) (Some ?tl) = None"
    unfolding doFunc_def f9 by (simp add: count[simplified])
  have ga: "getValue ?M ?S (Some ?ta) = None"
    apply (subst getValue.simps)
    apply (simp add: f1 f2 f3 f4)
    apply (simp add: f5 f6 f7 w5 sl)
    done
  have gb: "getValue ?M ?S (Some ?tb) = None"
    apply (subst getValue.simps)
    apply (simp add: f1 f2 f3 f4)
    apply (simp add: f5 f6 f7 w16 df)
    done
  have g0: "getValue ?M ?S (Some (Token ''$'' 0 0 0 nx)) = getValue ?M ?S nx" for nx
    apply (subst getValue.simps)
    apply (simp add: f1 f2 f3 f4)
    apply (simp add: f8 w0)
    done
  have lenM: "length ?M = 9" by simp
  have "Get ?M ''$.a[0]'' = getValue ?M \<lparr>off = 0, len = length ?M\<rparr> (Some (Token ''$'' 0 0 0 (Some ?ta)))"
    by (rule Get_parsed[OF _ _ pp]) simp_all
  then have a: "Get ?M ''$.a[0]'' = None" by (simp only: lenM g0 ga)
  have "Get ?M ''$.a.length()'' = getValue ?M \<lparr>off = 0, len = length ?M\<rparr> (Some (Token ''$'' 0 0 0 (Some ?tb)))"
    by (rule Get_parsed[OF _ _ pq]) simp_all
  then have "Get ?M ''$.a.length()'' = None" by (simp only: lenM g0 gb)
  with a show ?thesis by simp
qed

text \<open>
  C6. The claim: a terminal range \<^verbatim>\<open>[a:b]\<close> whose resolved bounds lie in \<^verbatim>\<open>[0, count)\<close>
  returns the new buffer \<^verbatim>\<open>[\<close> + the bytes from the first selected element to the last +
  \<^verbatim>\<open>]\<close>, so that \<^verbatim>\<open>$.arr[1:3]\<close> on \<^verbatim>\<open>{"arr":[1,2,3,4]}\<close> yields \<^verbatim>\<open>[2,3]\<close>; otherwise the
  call fails with the index error.

  The code at that buffer and path: the element scan of the window \<^verbatim>\<open>[1,2,3,4]}\<close> takes
  \<^verbatim>\<open>4]\<close> as the fourth element, arrives at the \<^verbatim>\<open>}\<close> at position 9 and stays there for
  ever. No result is returned.
\<close>

theorem Get_range_never_returns:
  \<open>Get ''{"arr":[1,2,3,4]}'' ''$.arr[1:3]'' = None\<close>
proof -
  let ?M = \<open>''{"arr":[1,2,3,4]}''\<close>
  let ?S = "\<lparr>off = 0, len = 17\<rparr>"
  let ?W = "\<lparr>off = 7, len = 10\<rparr>"
  let ?I = "''[1,2,3,4]}''"
  let ?ta = "Token ''arr'' 7 1 3 None"
  have pp: "parsePath ''$.arr[1:3]'' = Ok (Token ''$'' 0 0 0 (Some ?ta))" by code_simp
  have f1: "skipSpaces (bytes ?M ?S) 0 = Ok 0" by code_simp
  have f2: "reslice ?M ?S 0 17 = Ok ?S" by code_simp
  have f3: "length (bytes ?M ?S) = 17" by code_simp
  have f4: "bytes ?M ?S ! 0 = CHR ''{''" by code_simp
  have f5: "getKeyValue (bytes ?M ?S) ''arr'' = Ok 7" by code_simp
  have f6: "reslice ?M ?S 7 17 = Ok ?W" by code_simp
  have f7: "checkValueType (bytes ?M ?W) ?ta = None" by code_simp
  have f8: "checkValueType (bytes ?M ?S) (Token ''$'' 0 0 0 nx) = None" for nx
    by (simp add: checkValueType_def f3 f4 cSubject_def cArrayType_def cIsTerminal_def)
  have f9: "bytes ?M ?W = ?I" by code_simp
  have w7: "\<not> 0 <s ((7 :: 8 word) AND cSubject)" "0 <s ((7 :: 8 word) AND cIsTerminal)"
    "0 <s ((7 :: 8 word) AND cArrayType)" by code_simp+
  have w0: "\<not> 0 <s ((0 :: 8 word) AND cSubject)" "\<not> 0 <s ((0 :: 8 word) AND cIsTerminal)"
    "\<not> 0 <s ((0 :: 8 word) AND cArrayType)" by code_simp+
  have v: "skipValue ?I 1 = Ok 2" "skipValue ?I 3 = Ok 4" "skipValue ?I 5 = Ok 6"
    "skipValue ?I 7 = Ok 9" "skipValue ?I 9 = Ok 9" by code_simp+
  have s: "skipSpaces ?I 2 = Ok 3" "skipSpaces ?I 4 = Ok 5" "skipSpaces ?I 6 = Ok 7"
    "skipSpaces ?I 9 = Ok 9" by code_simp+
  have scan: "scanElems ?I 1 [] = None"
  proof -
    have "scanElems ?I 1 [] = scanElems ?I 3 ([] @ [\<lparr>start = 1, endp = 2\<rparr>])"
      by (rule scanElems_step) (simp_all add: v v[simplified] s)
    also have "\<dots> = scanElems ?I 5 (([] @ [\<lparr>start = 1, endp = 2\<rparr>]) @ [\<lparr>start = 3, endp = 4\<rparr>])"
      by (rule scanElems_step) (simp_all add: v v[simplified] s)
    also have "\<dots> = scanElems ?I 7 ((([] @ [\<lparr>start = 1, endp = 2\<rparr>]) @ [\<lparr>start = 3, endp = 4\<rparr>])
                          @ [\<lparr>start = 5, endp = 6\<rparr>])"
      by (rule scanElems_step) (simp_all add: v v[simplified] s)
    also have "\<dots> = scanElems ?I 9 (((([] @ [\<lparr>start = 1, endp = 2\<rparr>]) @ [\<lparr>start = 3, endp = 4\<rparr>])
                          @ [\<lparr>start = 5, endp = 6\<rparr>]) @ [\<lparr>start = 7, endp = 9\<rparr>])"
      by (rule scanElems_step) (simp_all add: v v[simplified] s)
    also have "\<dots> = None" by (rule scanElems_stuck) (simp_all add: v s)
    finally show ?thesis .
  qed
  have sl: "sliceArray ?M ?W ?ta = None"
    unfolding sliceArray_def f9 by (simp add: scan[simplified])
  have ga: "getValue ?M ?S (Some ?ta) = None"
    apply (subst getValue.simps)
    apply (simp add: f1 f2 f3 f4)
    apply (simp add: f5 f6 f7 w7 sl)
    done
  have g0: "getValue ?M ?S (Some (Token ''$'' 0 0 0 nx)) = getValue ?M ?S nx" for nx
    apply (subst getValue.simps)
    apply (simp add: f1 f2 f3 f4)
    apply (simp add: f8 w0)
    done
  have lenM: "length ?M = 17" by simp
  have "Get ?M ''$.arr[1:3]'' = getValue ?M \<lparr>off = 0, len = length ?M\<rparr> (Some (Token ''$'' 0 0 0 (Some ?ta)))"
    by (rule Get_parsed[OF _ _ pp]) simp_all
  then show ?thesis by (simp only: lenM g0 ga)
qed

section \<open>What the number reader and the key scan return\<close>

text \<open>
  The bytes that the loop of \<^verbatim>\<open>readNumber\<close> consumes (line 449), and the number that a run
  of such bytes denotes when every \<^verbatim>\<open>-\<close> is left out: its digits read in base ten.
\<close>

definition numberByte :: "char \<Rightarrow> bool" where
  "numberByte ch = (ch = CHR ''-''
     \<or> (of_char (CHR ''0'') \<le> (of_char ch :: nat) \<and> (of_char ch :: nat) \<le> of_char (CHR ''9'')))"

fun digitsValue :: "string \<Rightarrow> nat \<Rightarrow> nat" where
  "digitsValue [] n = n"
| "digitsValue (ch # s) n =
     (if ch = CHR ''-'' then digitsValue s n
      else digitsValue s (n * 10 + (of_char ch - of_char (CHR ''0''))))"


lemma readNumber_loop_run:
  "list_all numberByte s \<Longrightarrow> \<not> numberByte t \<Longrightarrow>
   readNumber_loop (pre @ s @ t # rest) (length pre) sign (word_of_nat n) =
     Ok (if CHR ''-'' \<in> set s then - 1 else sign, word_of_nat (digitsValue s n),
         length pre + length s)"
proof (induction s arbitrary: pre sign n)
  case Nil
  then show ?case
    by (subst readNumber_loop.simps) (auto simp: numberByte_def)
next
  case (Cons ch s)
  have at: "(pre @ (ch # s) @ t # rest) ! length pre = ch" by simp
  have shift: "pre @ (ch # s) @ t # rest = (pre @ [ch]) @ s @ t # rest" by simp
  from Cons.prems have ch: "numberByte ch" and s: "list_all numberByte s" by simp_all
  show ?case
  proof (cases "ch = CHR ''-''")
    case True
    have "readNumber_loop (pre @ (ch # s) @ t # rest) (length pre) sign (word_of_nat n) =
          readNumber_loop ((pre @ [ch]) @ s @ t # rest) (length (pre @ [ch])) (- 1) (word_of_nat n)"
      by (subst readNumber_loop.simps, subst at, subst at, subst at, subst at)
         (simp add: True)
    also have "\<dots> = Ok (if CHR ''-'' \<in> set s then - 1 else - 1, word_of_nat (digitsValue s n),
         length (pre @ [ch]) + length s)"
      by (rule Cons.IH[OF s Cons.prems(2)])
    finally show ?thesis by (simp add: True)
  next
    case False
    with ch have dg: "of_char (CHR ''0'') \<le> (of_char ch :: nat) \<and> (of_char ch :: nat) \<le> of_char (CHR ''9'')"
      by (simp add: numberByte_def)
    have w: "(word_of_nat n :: 64 word) * 10 + word_of_nat (of_char ch - of_char (CHR ''0''))
             = word_of_nat (n * 10 + (of_char ch - of_char (CHR ''0'')))"
      by simp
    have "readNumber_loop (pre @ (ch # s) @ t # rest) (length pre) sign (word_of_nat n) =
          readNumber_loop ((pre @ [ch]) @ s @ t # rest) (length (pre @ [ch])) sign
            (word_of_nat n * 10 + word_of_nat (of_char ch - of_char (CHR ''0'')))"
      by (subst readNumber_loop.simps, subst at, subst at, subst at, subst at, subst at)
         (use False dg in simp)
    also have "\<dots> = Ok (if CHR ''-'' \<in> set s then - 1 else sign,
         word_of_nat (digitsValue s (n * 10 + (of_char ch - of_char (CHR ''0'')))),
         length (pre @ [ch]) + length s)"
      unfolding w by (rule Cons.IH[OF s Cons.prems(2)])
    finally show ?thesis using False by simp
  qed
qed

lemma readNumber_run:
  assumes "list_all numberByte s" and "\<not> numberByte t"
  shows "readNumber (pre @ s @ t # rest) (length pre) =
     Ok (if CHR ''-'' \<in> set s then - word_of_nat (digitsValue s 0) else word_of_nat (digitsValue s 0),
         length pre + length s)"
proof -
  have "readNumber_loop (pre @ s @ t # rest) (length pre) 1 (word_of_nat 0) =
     Ok (if CHR ''-'' \<in> set s then - 1 else 1, word_of_nat (digitsValue s 0), length pre + length s)"
    using assms by (rule readNumber_loop_run)
  then show ?thesis by (simp add: readNumber_def)
qed



section \<open>The path compiler on a key followed by a range\<close>











text \<open>
  C10. The claim: the number reader of the compiler accepts \<^verbatim>\<open>-\<close> at any position of an
  index, not only in front; when a \<^verbatim>\<open>-\<close> is present it yields the negation of the number
  made of all the digits, so that \<^verbatim>\<open>$[1-2]\<close> compiles to the single index \<^verbatim>\<open>-12\<close>.

  For any run \<open>s\<close> of number bytes that holds a \<^verbatim>\<open>-\<close>, read from its first byte up to a
  byte \<open>t\<close> that is no number byte: the result is the negation, in 64-bit arithmetic, of
  the digits of \<open>s\<close> read in base ten, and the position of \<open>t\<close>.
\<close>

theorem readNumber_minus_anywhere:
  assumes "list_all numberByte s" and "\<not> numberByte t" and "CHR ''-'' \<in> set s"
  shows "readNumber (pre @ s @ t # rest) (length pre)
           = Ok (- word_of_nat (digitsValue s 0), length pre + length s)
       \<and> parsePath ''$[1-2]'' = Ok (Token ''$'' (cArrayType OR cIsTerminal) (- 12) 0 None)"
proof -
  have "readNumber (pre @ s @ t # rest) (length pre)
           = Ok (- word_of_nat (digitsValue s 0), length pre + length s)"
    using readNumber_run[OF assms(1,2), of pre rest] assms(3) by simp
  moreover have "parsePath ''$[1-2]'' = Ok (Token ''$'' (cArrayType OR cIsTerminal) (- 12) 0 None)"
    by code_simp
  ultimately show ?thesis by simp
qed

theorem readNumber_minus_anywhere_witness:
  "readNumber ''$[1-2]'' 2 = Ok (- 12, 5)
   \<and> parsePath ''$[1-2]'' = Ok (Token ''$'' (cArrayType OR cIsTerminal) (- 12) 0 None)"
  using readNumber_minus_anywhere[of "''1-2''" "CHR '']''" "''$[''" "[]"]
  by (simp add: numberByte_def eval_nat_numeral)

end
